theory Spec2Isabelle
  imports Main
begin

section \<open>The frame height synchronizer of docs/js/custom.js\<close>

text \<open>
  The script is one function, \<^verbatim>\<open>resizeIframe\<close>, and one handler for the host
  window's \<^verbatim>\<open>DOMContentLoaded\<close> event that creates a \<^verbatim>\<open>MutationObserver\<close>.
  The embedding keeps the objects the script touches in a store indexed by element
  reference, and makes every exception the script can raise a value.
\<close>

subsection \<open>Objects\<close>

type_synonym ref = nat

datatype error = TypeError | SecurityError

text \<open>
  The platform reports scroll heights as integers of 32 bits, on which the addition of
  100 in JavaScript's numbers is exact: the embedding computes in \<open>int\<close>.
\<close>

record body_element =
  scrollHeight :: int

record inner_document =
  body :: "body_element option"

text \<open>
  The only listeners the script ever creates are the closures
  \<^verbatim>\<open>() => resizeIframe(e)\<close>; a closure is determined by the element it captured.
  Every evaluation of the arrow function yields a new function object, so the list of a
  window's listeners may hold the same captured element several times.
\<close>

datatype listener = Resize_listener ref

text \<open>
  \<open>document w = None\<close> stands for a window of another origin: reading its
  \<^verbatim>\<open>document\<close> raises a SecurityError. \<open>body d = None\<close> and
  \<open>contentWindow e = None\<close> are the JavaScript value \<^verbatim>\<open>null\<close>.

  A Window object receives the DOMContentLoaded of its document once. \<open>loading w\<close>
  says that this event is still to come: the document of the window is being parsed, or
  the window is the first one of a frame, which the frame's first document of the same
  origin takes over together with its listeners. Any other navigation, and a reload, give
  the frame a new Window object without listeners.
\<close>

record inner_window =
  document :: "inner_document option"
  listeners :: "listener list"
  loading :: bool

text \<open>
  \<open>height\<close> is the number the \<^verbatim>\<open>height\<close> attribute of the element denotes.
\<close>

record iframe =
  height :: int
  contentWindow :: "inner_window option"

subsection \<open>Mutation records and the observer's options\<close>

datatype mutation_type = childList_type | attributes_type | characterData_type

datatype placement = At_body | Below_body | Outside_body

record mutation_record =
  mtype :: mutation_type
  target :: placement

record observer_init =
  childList :: bool
  attributes :: bool
  characterData :: bool
  subtree :: bool

text \<open>
  A page: the store of iframe elements, the result of
  \<^verbatim>\<open>document.querySelectorAll("iframe")\<close> in document order, and the record queue of
  every observer the script has registered on \<^verbatim>\<open>document.body\<close>.
\<close>

record page =
  elements :: "ref \<Rightarrow> iframe"
  iframes :: "ref list"
  observers :: "mutation_record list list"

text \<open>
  Line 16: \<^verbatim>\<open>obs.observe(document.body, { childList: true, subtree: true })\<close>.
  The members that are left out default to false.
\<close>

definition observe_options :: observer_init where
  "observe_options =
     \<lparr>childList = True, attributes = False, characterData = False, subtree = True\<rparr>"

text \<open>
  The platform queues a record for an observer registered on the body when the target is
  the body, or a descendant of it and \<open>subtree\<close> is set, and the options select the
  record's type.
\<close>

definition interested :: "observer_init \<Rightarrow> mutation_record \<Rightarrow> bool" where
  "interested opts m =
     ((target m = At_body \<or> (target m = Below_body \<and> subtree opts)) \<and>
      (case mtype m of
         childList_type \<Rightarrow> childList opts
       | attributes_type \<Rightarrow> attributes opts
       | characterData_type \<Rightarrow> characterData opts))"

definition queue_mutation_record :: "mutation_record \<Rightarrow> page \<Rightarrow> page" where
  "queue_mutation_record m p =
     (if interested observe_options m
      then p\<lparr>observers := map (\<lambda>q. q @ [m]) (observers p)\<rparr>
      else p)"

subsection \<open>resizeIframe\<close>

text \<open>
  The right-hand side \<^verbatim>\<open>e.contentWindow.document.body.scrollHeight\<close>, read from
  left to right.
\<close>

definition body_scrollHeight :: "iframe \<Rightarrow> error + int" where
  "body_scrollHeight e =
     (case contentWindow e of
        None \<Rightarrow> Inl TypeError
      | Some w \<Rightarrow>
          (case document w of
             None \<Rightarrow> Inl SecurityError
           | Some d \<Rightarrow>
               (case body d of
                  None \<Rightarrow> Inl TypeError
                | Some b \<Rightarrow> Inr (scrollHeight b))))"

text \<open>
  The assignment \<^verbatim>\<open>e.height = v\<close> changes an attribute of an element that lies
  below the body, which the platform reports as a mutation of type attributes.
\<close>

definition set_height :: "ref \<Rightarrow> int \<Rightarrow> page \<Rightarrow> page" where
  "set_height e v p =
     queue_mutation_record \<lparr>mtype = attributes_type, target = Below_body\<rparr>
       (p\<lparr>elements := (elements p)(e := (elements p e)\<lparr>height := v\<rparr>)\<rparr>)"

text \<open>
  The result is the exception raised, if any, and the page as the call leaves it.
\<close>

definition resizeIframe :: "ref \<Rightarrow> page \<Rightarrow> error option \<times> page" where
  "resizeIframe e p =
     (case body_scrollHeight (elements p e) of
        Inl err \<Rightarrow> (Some err, p)
      | Inr h \<Rightarrow> (None, set_height e (h + 100) p))"

subsection \<open>The observer's callback\<close>

definition addEventListener :: "ref \<Rightarrow> listener \<Rightarrow> page \<Rightarrow> error option \<times> page" where
  "addEventListener e l p =
     (case contentWindow (elements p e) of
        None \<Rightarrow> (Some TypeError, p)
      | Some w \<Rightarrow>
          (case document w of
             None \<Rightarrow> (Some SecurityError, p)
           | Some d \<Rightarrow>
               (None, p\<lparr>elements := (elements p)
                  (e := (elements p e)
                     \<lparr>contentWindow := Some (w\<lparr>listeners := listeners w @ [l]\<rparr>)\<rparr>)\<rparr>)))"

definition each_iframe :: "ref \<Rightarrow> page \<Rightarrow> error option \<times> page" where
  "each_iframe e p =
     (case resizeIframe e p of
        (Some err, p') \<Rightarrow> (Some err, p')
      | (None, p') \<Rightarrow> addEventListener e (Resize_listener e) p')"

text \<open>An exception leaves \<^verbatim>\<open>forEach\<close>: the elements that follow are not visited.\<close>

fun forEach :: "(ref \<Rightarrow> page \<Rightarrow> error option \<times> page) \<Rightarrow> ref list \<Rightarrow> page
    \<Rightarrow> error option \<times> page" where
  "forEach f [] p = (None, p)"
| "forEach f (e # es) p =
     (case f e p of
        (Some err, p') \<Rightarrow> (Some err, p')
      | (None, p') \<Rightarrow> forEach f es p')"

definition callback :: "mutation_record list \<Rightarrow> page \<Rightarrow> error option \<times> page" where
  "callback arr_MutationList p = forEach each_iframe (iframes p) p"

subsection \<open>The handler of the host window's DOMContentLoaded\<close>

text \<open>
  The handler creates an observer with the callback above and registers it on the body,
  which an HTML document has when its parsing has ended. The new observer starts with an
  empty record queue. The handler calls neither the callback nor resizeIframe.
\<close>

definition initialize :: "page \<Rightarrow> page" where
  "initialize p = p\<lparr>observers := observers p @ [[]]\<rparr>"

subsection \<open>Events\<close>

fun run_listener :: "listener \<Rightarrow> page \<Rightarrow> error option \<times> page" where
  "run_listener (Resize_listener e) p = resizeIframe e p"

text \<open>
  The event reaches a window that is still loading, and ends its loading. The platform
  calls the listeners of the window in the order of their registration; an exception of
  one listener is reported and the next listener runs.
\<close>

definition dispatch_DOMContentLoaded :: "ref \<Rightarrow> page \<Rightarrow> page" where
  "dispatch_DOMContentLoaded f p =
     (case contentWindow (elements p f) of
        None \<Rightarrow> p
      | Some w \<Rightarrow>
          if loading w
          then fold (\<lambda>l q. snd (run_listener l q)) (listeners w)
                 (p\<lparr>elements := (elements p)
                    (f := (elements p f)\<lparr>contentWindow := Some (w\<lparr>loading := False\<rparr>)\<rparr>)\<rparr>)
          else p)"

text \<open>
  At a microtask checkpoint every observer with a non-empty queue has its queue emptied
  and its callback called with the records.
\<close>

fun notify_each :: "nat list \<Rightarrow> page \<Rightarrow> page" where
  "notify_each [] p = p"
| "notify_each (i # js) p =
     (if i < length (observers p) \<and> observers p ! i \<noteq> []
      then notify_each js
             (snd (callback (observers p ! i) (p\<lparr>observers := (observers p)[i := []]\<rparr>)))
      else notify_each js p)"

definition notify_mutation_observers :: "page \<Rightarrow> page" where
  "notify_mutation_observers p = notify_each [0..<length (observers p)] p"

definition reflow :: "int \<Rightarrow> iframe \<Rightarrow> iframe" where
  "reflow h e =
     (case contentWindow e of
        None \<Rightarrow> e
      | Some w \<Rightarrow>
          (case document w of
             None \<Rightarrow> e
           | Some d \<Rightarrow>
               (case body d of
                  None \<Rightarrow> e
                | Some b \<Rightarrow>
                    e\<lparr>contentWindow :=
                        Some (w\<lparr>document := Some (d\<lparr>body := Some (b\<lparr>scrollHeight := h\<rparr>)\<rparr>)\<rparr>)\<rparr>)))"

text \<open>
  A navigation or a reload: the frame gets a new window, which has no listeners and is
  loading the given document (\<open>None\<close> for a document of another origin).
\<close>

definition navigate :: "inner_document option \<Rightarrow> iframe \<Rightarrow> iframe" where
  "navigate d e =
     (case contentWindow e of
        None \<Rightarrow> e
      | Some w \<Rightarrow> e\<lparr>contentWindow := Some \<lparr>document = d, listeners = [], loading = True\<rparr>\<rparr>)"

text \<open>
  A window that is still loading shows another document of the same origin: the parser
  has got further, or the first document of the frame has taken over the first window.
\<close>

definition show_document :: "inner_document \<Rightarrow> iframe \<Rightarrow> iframe" where
  "show_document d e =
     (case contentWindow e of
        None \<Rightarrow> e
      | Some w \<Rightarrow> if loading w then e\<lparr>contentWindow := Some (w\<lparr>document := Some d\<rparr>)\<rparr> else e)"

text \<open>
  What can happen to a page: the host document is parsed; a script adds or removes nodes
  (after which \<^verbatim>\<open>querySelectorAll("iframe")\<close> finds the given elements), changes an
  attribute or a text; a microtask checkpoint is reached; the document of a frame's
  window is parsed; the content of a frame gets a new scroll height; a frame is
  navigated or reloaded; a loading window shows another document.
\<close>

datatype event =
    Host_DOMContentLoaded
  | Child_list_mutation placement "ref list"
  | Attribute_mutation placement
  | Character_data_mutation placement
  | Microtask_checkpoint
  | Frame_DOMContentLoaded ref
  | Inner_reflow ref int
  | Frame_navigate ref "inner_document option"
  | Frame_document ref inner_document

fun step :: "event \<Rightarrow> page \<Rightarrow> page" where
  "step Host_DOMContentLoaded p = initialize p"
| "step (Child_list_mutation t fs) p =
     queue_mutation_record \<lparr>mtype = childList_type, target = t\<rparr> (p\<lparr>iframes := fs\<rparr>)"
| "step (Attribute_mutation t) p =
     queue_mutation_record \<lparr>mtype = attributes_type, target = t\<rparr> p"
| "step (Character_data_mutation t) p =
     queue_mutation_record \<lparr>mtype = characterData_type, target = t\<rparr> p"
| "step Microtask_checkpoint p = notify_mutation_observers p"
| "step (Frame_DOMContentLoaded f) p = dispatch_DOMContentLoaded f p"
| "step (Inner_reflow f h) p = p\<lparr>elements := (elements p)(f := reflow h (elements p f))\<rparr>"
| "step (Frame_navigate f d) p = p\<lparr>elements := (elements p)(f := navigate d (elements p f))\<rparr>"
| "step (Frame_document f d) p =
     p\<lparr>elements := (elements p)(f := show_document d (elements p f))\<rparr>"

definition run :: "event list \<Rightarrow> page \<Rightarrow> page" where
  "run evs p = fold step evs p"

subsection \<open>Observations\<close>

definition window_listeners :: "iframe \<Rightarrow> listener list" where
  "window_listeners e = (case contentWindow e of None \<Rightarrow> [] | Some w \<Rightarrow> listeners w)"

definition window_loading :: "iframe \<Rightarrow> bool" where
  "window_loading e = (case contentWindow e of None \<Rightarrow> False | Some w \<Rightarrow> loading w)"

text \<open>
  Every listener on the window of a frame is a closure over that frame: the script
  registers \<^verbatim>\<open>() => resizeIframe(e)\<close> on \<^verbatim>\<open>e.contentWindow\<close> and nowhere else.
\<close>

definition listeners_own :: "page \<Rightarrow> bool" where
  "listeners_own p =
     (\<forall>f. \<forall>l\<in>set (window_listeners (elements p f)). l = Resize_listener f)"

text \<open>
  The events that are neither a change of the host document's structure nor the
  completion of the given frame's own document.
\<close>

fun quiet :: "ref \<Rightarrow> event \<Rightarrow> bool" where
  "quiet f (Child_list_mutation t fs) = False"
| "quiet f (Frame_DOMContentLoaded g) = (g \<noteq> f)"
| "quiet f ev = True"

subsection \<open>Example pages\<close>

definition readable_frame :: "int \<Rightarrow> int \<Rightarrow> iframe" where
  "readable_frame h s =
     \<lparr>height = h,
      contentWindow =
        Some \<lparr>document = Some \<lparr>body = Some \<lparr>scrollHeight = s\<rparr>\<rparr>, listeners = [],
          loading = True\<rparr>\<rparr>"

definition foreign_frame :: "int \<Rightarrow> iframe" where
  "foreign_frame h =
     \<lparr>height = h, contentWindow = Some \<lparr>document = None, listeners = [], loading = True\<rparr>\<rparr>"

definition bodyless_frame :: "int \<Rightarrow> iframe" where
  "bodyless_frame h =
     \<lparr>height = h,
      contentWindow = Some \<lparr>document = Some \<lparr>body = None\<rparr>, listeners = [], loading = True\<rparr>\<rparr>"

definition detached_frame :: "int \<Rightarrow> iframe" where
  "detached_frame h = \<lparr>height = h, contentWindow = None\<rparr>"

definition one_frame_page :: "int \<Rightarrow> int \<Rightarrow> page" where
  "one_frame_page h s =
     \<lparr>elements = (\<lambda>_. detached_frame 0)(0 := readable_frame h s),
      iframes = [0], observers = []\<rparr>"

definition mixed_page :: page where
  "mixed_page =
     \<lparr>elements = (\<lambda>_. detached_frame 0)(0 := foreign_frame 150, 1 := readable_frame 150 300),
      iframes = [0, 1], observers = []\<rparr>"

definition two_frame_page :: "int \<Rightarrow> int \<Rightarrow> page" where
  "two_frame_page s0 s1 =
     \<lparr>elements = (\<lambda>_. detached_frame 0)(0 := readable_frame 150 s0, 1 := readable_frame 150 s1),
      iframes = [0, 1], observers = []\<rparr>"

definition three_frame_page :: page where
  "three_frame_page =
     \<lparr>elements = (\<lambda>_. detached_frame 0)
        (0 := readable_frame 150 300, 1 := bodyless_frame 150, 2 := readable_frame 150 700),
      iframes = [0, 1, 2], observers = []\<rparr>"

definition unreadable_page :: page where
  "unreadable_page =
     \<lparr>elements = (\<lambda>_. detached_frame 0)
        (0 := detached_frame 150, 1 := foreign_frame 150, 2 := bodyless_frame 150),
      iframes = [0, 1, 2], observers = []\<rparr>"

section \<open>Properties of resizeIframe\<close>

lemma set_height_eq:
  "set_height e v p = p\<lparr>elements := (elements p)(e := (elements p e)\<lparr>height := v\<rparr>)\<rparr>"
  by (simp add: set_height_def queue_mutation_record_def interested_def observe_options_def)

lemma resizeIframe_ok:
  "body_scrollHeight (elements p e) = Inr h \<Longrightarrow>
   resizeIframe e p =
     (None, p\<lparr>elements := (elements p)(e := (elements p e)\<lparr>height := h + 100\<rparr>)\<rparr>)"
  by (simp add: resizeIframe_def set_height_eq)

lemma resizeIframe_error:
  "body_scrollHeight (elements p e) = Inl err \<Longrightarrow> resizeIframe e p = (Some err, p)"
  by (simp add: resizeIframe_def)

lemma body_scrollHeight_height [simp]:
  "body_scrollHeight (e\<lparr>height := v\<rparr>) = body_scrollHeight e"
  by (simp add: body_scrollHeight_def)

text \<open>
  C1. For a frame whose inner body has scroll height \<open>H\<close>, with \<open>0 \<le> H\<close>, resizeIframe
  raises nothing and leaves the frame's height at \<open>H + 100\<close>.
\<close>

theorem resizeIframe_height:
  assumes "body_scrollHeight (elements p e) = Inr H" and "0 \<le> H"
  shows "fst (resizeIframe e p) = None \<and>
         height (elements (snd (resizeIframe e p)) e) = H + 100"
  using assms(1) by (simp add: resizeIframe_ok)

theorem resizeIframe_height_witness:
  "body_scrollHeight (elements (one_frame_page 150 300) 0) = Inr 300 \<and> (0::int) \<le> 300 \<and>
   fst (resizeIframe 0 (one_frame_page 150 300)) = None \<and>
   height (elements (snd (resizeIframe 0 (one_frame_page 150 300))) 0) = 400"
proof -
  have h: "body_scrollHeight (elements (one_frame_page 150 300) 0) = Inr 300"
    by (simp add: one_frame_page_def readable_frame_def body_scrollHeight_def)
  have z: "(0::int) \<le> 300" by simp
  show ?thesis using h resizeIframe_height [OF h z] by simp
qed

text \<open>
  C7. resizeIframe is idempotent: called again on the page it has left, it ends the same
  way (the same exception, or none), assigns the same height and leaves the page as the
  first call left it.
\<close>

theorem resizeIframe_idempotent:
  "resizeIframe e (snd (resizeIframe e p)) = resizeIframe e p \<and>
   height (elements (snd (resizeIframe e (snd (resizeIframe e p)))) e) =
     height (elements (snd (resizeIframe e p)) e)"
proof (cases "body_scrollHeight (elements p e)")
  case (Inl err)
  then show ?thesis by (simp add: resizeIframe_error)
next
  case (Inr h)
  let ?p' = "p\<lparr>elements := (elements p)(e := (elements p e)\<lparr>height := h + 100\<rparr>)\<rparr>"
  have first: "resizeIframe e p = (None, ?p')"
    using Inr by (rule resizeIframe_ok)
  have "body_scrollHeight (elements ?p' e) = Inr h"
    using Inr by simp
  then have "resizeIframe e ?p' = (None, ?p')"
    by (simp add: resizeIframe_ok)
  with first show ?thesis by simp
qed

text \<open>
  C8. The height resizeIframe gives a frame depends on that frame's own inner scroll
  height only: on two pages that agree on it, whatever the other frames hold, the frame
  gets the same height; and resizing another frame leaves the frame as it is.
\<close>

theorem resizeIframe_noninterference:
  assumes "body_scrollHeight (elements p f) = Inr H"
    and "body_scrollHeight (elements q f) = Inr H"
  shows "height (elements (snd (resizeIframe f p)) f) =
           height (elements (snd (resizeIframe f q)) f) \<and>
         (\<forall>g. g \<noteq> f \<longrightarrow> elements (snd (resizeIframe g p)) f = elements p f)"
proof -
  have "elements (snd (resizeIframe g p)) f = elements p f" if "g \<noteq> f" for g
    using that
    by (cases "body_scrollHeight (elements p g)")
      (simp_all add: resizeIframe_ok resizeIframe_error)
  then show ?thesis
    using assms by (simp add: resizeIframe_ok)
qed

theorem resizeIframe_noninterference_witness:
  "height (elements (snd (resizeIframe 1 mixed_page)) 1) =
     height (elements (snd (resizeIframe 1 (two_frame_page 700 300))) 1) \<and>
   elements (snd (resizeIframe 0 mixed_page)) 1 = elements mixed_page 1"
proof -
  have p: "body_scrollHeight (elements mixed_page 1) = Inr 300"
    by (simp add: mixed_page_def readable_frame_def body_scrollHeight_def)
  have q: "body_scrollHeight (elements (two_frame_page 700 300) 1) = Inr 300"
    by (simp add: two_frame_page_def readable_frame_def body_scrollHeight_def)
  show ?thesis
    using resizeIframe_noninterference [OF p q] by simp
qed

text \<open>
  Against the margin alone for content that is not yet rendered: a frame whose document
  has no body yet raises a TypeError and keeps its height of 150.
\<close>

theorem unrendered_counterexample:
  "2 \<in> set (iframes unreadable_page) \<and>
   fst (resizeIframe 2 unreadable_page) = Some TypeError \<and>
   height (elements (snd (resizeIframe 2 unreadable_page)) 2) = 150 \<and>
   height (elements (snd (resizeIframe 2 unreadable_page)) 2) \<noteq> 100"
  by code_simp

text \<open>
  C9, as the script has it. Every height resizeIframe writes is the inner scroll
  height + 100, and as the inner scroll height is never negative, at least 100; for a
  frame whose inner body has scroll height 0 it is the margin of 100 alone. A frame whose
  document has no body yet gets no height at all: resizeIframe raises a TypeError and
  leaves the page as it was.
\<close>

theorem resizeIframe_at_least_margin:
  "(body_scrollHeight (elements p e) = Inr H \<and> 0 \<le> H \<longrightarrow>
      fst (resizeIframe e p) = None \<and>
      height (elements (snd (resizeIframe e p)) e) = H + 100 \<and>
      100 \<le> height (elements (snd (resizeIframe e p)) e) \<and>
      (H = 0 \<longrightarrow> height (elements (snd (resizeIframe e p)) e) = 100)) \<and>
   (contentWindow (elements p e) = Some w \<and> document w = Some d \<and> body d = None \<longrightarrow>
      resizeIframe e p = (Some TypeError, p))"
proof -
  have "resizeIframe e p = (Some TypeError, p)"
    if "contentWindow (elements p e) = Some w" and "document w = Some d" and "body d = None"
    using that by (simp add: resizeIframe_def body_scrollHeight_def)
  then show ?thesis
    by (simp add: resizeIframe_ok)
qed

theorem resizeIframe_at_least_margin_witness:
  "body_scrollHeight (elements (one_frame_page 150 0) 0) = Inr 0 \<and>
   fst (resizeIframe 0 (one_frame_page 150 0)) = None \<and>
   100 \<le> height (elements (snd (resizeIframe 0 (one_frame_page 150 0))) 0) \<and>
   height (elements (snd (resizeIframe 0 (one_frame_page 150 0))) 0) = 100 \<and>
   contentWindow (elements unreadable_page 2) =
     Some \<lparr>document = Some \<lparr>body = None\<rparr>, listeners = [], loading = True\<rparr> \<and>
   resizeIframe 2 unreadable_page = (Some TypeError, unreadable_page)"
proof -
  have h: "body_scrollHeight (elements (one_frame_page 150 0) 0) = Inr 0"
    by (simp add: one_frame_page_def readable_frame_def body_scrollHeight_def)
  have w: "contentWindow (elements unreadable_page 2) =
      Some \<lparr>document = Some \<lparr>body = None\<rparr>, listeners = [], loading = True\<rparr>"
    by (simp add: unreadable_page_def bodyless_frame_def)
  show ?thesis
    using h w
      resizeIframe_at_least_margin [of "one_frame_page 150 0" 0 0]
      resizeIframe_at_least_margin [of unreadable_page 2 0
        "\<lparr>document = Some \<lparr>body = None\<rparr>, listeners = [], loading = True\<rparr>" "\<lparr>body = None\<rparr>"]
    by simp
qed

text \<open>
  C10. resizeIframe reads before it writes. When the frame has no inner window it raises
  a TypeError, when the window belongs to another origin a SecurityError, when the
  document has no body a TypeError; and whenever it raises, the page, and with it the
  frame's height, is as it was.
\<close>

theorem resizeIframe_raises_before_write:
  "(contentWindow (elements p e) = None \<longrightarrow> resizeIframe e p = (Some TypeError, p)) \<and>
   (contentWindow (elements p e) = Some w \<and> document w = None \<longrightarrow>
      resizeIframe e p = (Some SecurityError, p)) \<and>
   (contentWindow (elements p e) = Some w \<and> document w = Some d \<and> body d = None \<longrightarrow>
      resizeIframe e p = (Some TypeError, p)) \<and>
   (fst (resizeIframe e p) = Some err \<longrightarrow>
      snd (resizeIframe e p) = p \<and> body_scrollHeight (elements p e) = Inl err)"
proof -
  have "snd (resizeIframe e p) = p \<and> body_scrollHeight (elements p e) = Inl err"
    if "fst (resizeIframe e p) = Some err"
    using that
    by (cases "body_scrollHeight (elements p e)")
      (simp_all add: resizeIframe_ok resizeIframe_error)
  then show ?thesis
    by (simp add: resizeIframe_def body_scrollHeight_def)
qed

theorem resizeIframe_raises_before_write_witness:
  "iframes unreadable_page = [0, 1, 2] \<and>
   contentWindow (elements unreadable_page 0) = None \<and>
   resizeIframe 0 unreadable_page = (Some TypeError, unreadable_page) \<and>
   contentWindow (elements unreadable_page 1) =
     Some \<lparr>document = None, listeners = [], loading = True\<rparr> \<and>
   resizeIframe 1 unreadable_page = (Some SecurityError, unreadable_page) \<and>
   resizeIframe 2 unreadable_page = (Some TypeError, unreadable_page) \<and>
   fst (resizeIframe 1 unreadable_page) = Some SecurityError \<and>
   snd (resizeIframe 1 unreadable_page) = unreadable_page \<and>
   height (elements (snd (resizeIframe 1 unreadable_page)) 1) = 150"
proof -
  let ?w1 = "\<lparr>document = None, listeners = [], loading = True\<rparr>"
  let ?w2 = "\<lparr>document = Some \<lparr>body = None\<rparr>, listeners = [], loading = True\<rparr>"
  have i: "iframes unreadable_page = [0, 1, 2]"
    by (simp add: unreadable_page_def)
  have w0: "contentWindow (elements unreadable_page 0) = None"
    by (simp add: unreadable_page_def detached_frame_def)
  have w1: "contentWindow (elements unreadable_page 1) = Some ?w1"
    by (simp add: unreadable_page_def foreign_frame_def)
  have w2: "contentWindow (elements unreadable_page 2) = Some ?w2"
    by (simp add: unreadable_page_def bodyless_frame_def)
  have h: "height (elements unreadable_page 1) = 150"
    by (simp add: unreadable_page_def foreign_frame_def)
  show ?thesis
    using i w0 w1 w2 h
      resizeIframe_raises_before_write [of unreadable_page 0 ?w1 "\<lparr>body = None\<rparr>" SecurityError]
      resizeIframe_raises_before_write [of unreadable_page 1 ?w1 "\<lparr>body = None\<rparr>" SecurityError]
      resizeIframe_raises_before_write [of unreadable_page 2 ?w2 "\<lparr>body = None\<rparr>" TypeError]
    by simp
qed

section \<open>Properties of the callback and of the events\<close>

lemma resizeIframe_cases:
  obtains (error) err where "body_scrollHeight (elements p e) = Inl err"
      and "resizeIframe e p = (Some err, p)"
  | (ok) h where "body_scrollHeight (elements p e) = Inr h"
      and "resizeIframe e p =
        (None, p\<lparr>elements := (elements p)(e := (elements p e)\<lparr>height := h + 100\<rparr>)\<rparr>)"
  by (cases "body_scrollHeight (elements p e)")
    (auto simp add: resizeIframe_ok resizeIframe_error)

lemma resizeIframe_observers [simp]: "observers (snd (resizeIframe e p)) = observers p"
  by (rule resizeIframe_cases [of p e]) simp_all

lemma resizeIframe_iframes [simp]: "iframes (snd (resizeIframe e p)) = iframes p"
  by (rule resizeIframe_cases [of p e]) simp_all

lemma resizeIframe_contentWindow [simp]:
  "contentWindow (elements (snd (resizeIframe e p)) g) = contentWindow (elements p g)"
  by (rule resizeIframe_cases [of p e]) simp_all

lemma resizeIframe_body_scrollHeight [simp]:
  "body_scrollHeight (elements (snd (resizeIframe e p)) g) = body_scrollHeight (elements p g)"
  by (simp add: body_scrollHeight_def)

lemma resizeIframe_window_listeners [simp]:
  "window_listeners (elements (snd (resizeIframe e p)) g) = window_listeners (elements p g)"
  by (simp add: window_listeners_def)

lemma resizeIframe_window_loading [simp]:
  "window_loading (elements (snd (resizeIframe e p)) g) = window_loading (elements p g)"
  by (simp add: window_loading_def)

lemma resizeIframe_other:
  "g \<noteq> e \<Longrightarrow> elements (snd (resizeIframe e p)) g = elements p g"
  by (rule resizeIframe_cases [of p e]) simp_all

lemma resizeIframe_keeps:
  assumes "body_scrollHeight (elements p f) = Inr H" and "height (elements p f) = H + 100"
  shows "height (elements (snd (resizeIframe e p)) f) = H + 100"
proof (cases "e = f")
  case True
  with assms(1) show ?thesis by (simp add: resizeIframe_ok)
next
  case False
  with assms(2) show ?thesis by (simp add: resizeIframe_other)
qed

lemma each_iframe_error:
  "body_scrollHeight (elements p e) = Inl err \<Longrightarrow> each_iframe e p = (Some err, p)"
  by (simp add: each_iframe_def resizeIframe_error)

lemma each_iframe_ok:
  assumes "body_scrollHeight (elements p e) = Inr h"
  shows "\<exists>w. contentWindow (elements p e) = Some w \<and>
    each_iframe e p =
      (None, p\<lparr>elements := (elements p)(e := (elements p e)
         \<lparr>height := h + 100,
          contentWindow := Some (w\<lparr>listeners := listeners w @ [Resize_listener e]\<rparr>)\<rparr>)\<rparr>)"
  using assms
  by (auto simp add: body_scrollHeight_def each_iframe_def resizeIframe_def set_height_eq
      addEventListener_def split: option.splits)

lemma each_iframe_cases:
  obtains (error) err where "body_scrollHeight (elements p e) = Inl err"
      and "each_iframe e p = (Some err, p)"
  | (ok) h w where "body_scrollHeight (elements p e) = Inr h"
      and "contentWindow (elements p e) = Some w"
      and "each_iframe e p =
      (None, p\<lparr>elements := (elements p)(e := (elements p e)
         \<lparr>height := h + 100,
          contentWindow := Some (w\<lparr>listeners := listeners w @ [Resize_listener e]\<rparr>)\<rparr>)\<rparr>)"
proof (cases "body_scrollHeight (elements p e)")
  case (Inl err)
  then show ?thesis using error each_iframe_error by blast
next
  case (Inr h)
  then show ?thesis using ok each_iframe_ok [OF Inr] by blast
qed

lemma each_iframe_observers [simp]: "observers (snd (each_iframe e p)) = observers p"
  by (rule each_iframe_cases [of p e]) simp_all

lemma each_iframe_iframes [simp]: "iframes (snd (each_iframe e p)) = iframes p"
  by (rule each_iframe_cases [of p e]) simp_all

lemma each_iframe_other:
  "g \<noteq> e \<Longrightarrow> elements (snd (each_iframe e p)) g = elements p g"
  by (rule each_iframe_cases [of p e]) simp_all

lemma each_iframe_body_scrollHeight [simp]:
  "body_scrollHeight (elements (snd (each_iframe e p)) g) = body_scrollHeight (elements p g)"
  by (rule each_iframe_cases [of p e]) (auto simp add: body_scrollHeight_def)

lemma each_iframe_window_loading [simp]:
  "window_loading (elements (snd (each_iframe e p)) g) = window_loading (elements p g)"
  by (rule each_iframe_cases [of p e]) (auto simp add: window_loading_def)

lemma each_iframe_height:
  "body_scrollHeight (elements p e) = Inr h \<Longrightarrow>
   fst (each_iframe e p) = None \<and> height (elements (snd (each_iframe e p)) e) = h + 100"
  using each_iframe_ok [of p e h] by auto

lemma each_iframe_listeners:
  "body_scrollHeight (elements p e) = Inr h \<Longrightarrow>
   window_listeners (elements (snd (each_iframe e p)) e) =
     window_listeners (elements p e) @ [Resize_listener e]"
  using each_iframe_ok [of p e h] by (auto simp add: window_listeners_def)

lemma each_iframe_keeps:
  assumes "body_scrollHeight (elements p f) = Inr H" and "height (elements p f) = H + 100"
  shows "height (elements (snd (each_iframe e p)) f) = H + 100"
proof (cases "e = f")
  case True
  with assms(1) show ?thesis by (simp add: each_iframe_height)
next
  case False
  with assms(2) show ?thesis by (simp add: each_iframe_other)
qed

subsection \<open>forEach\<close>

lemma forEach_observers [simp]:
  "observers (snd (forEach each_iframe xs p)) = observers p"
  by (induction xs arbitrary: p) (auto split: prod.splits option.splits
      dest: arg_cong [where f = "\<lambda>r. observers (snd r)"])

lemma forEach_iframes [simp]:
  "iframes (snd (forEach each_iframe xs p)) = iframes p"
  by (induction xs arbitrary: p) (auto split: prod.splits option.splits
      dest: arg_cong [where f = "\<lambda>r. iframes (snd r)"])

lemma forEach_body_scrollHeight [simp]:
  "body_scrollHeight (elements (snd (forEach each_iframe xs p)) g) =
     body_scrollHeight (elements p g)"
  by (induction xs arbitrary: p) (auto split: prod.splits option.splits
      dest: arg_cong [where f = "\<lambda>r. body_scrollHeight (elements (snd r) g)"])

lemma forEach_window_loading [simp]:
  "window_loading (elements (snd (forEach each_iframe xs p)) g) =
     window_loading (elements p g)"
proof (induction xs arbitrary: p)
  case Nil
  show ?case by simp
next
  case (Cons x xs)
  obtain r p' where r: "each_iframe x p = (r, p')" by (cases "each_iframe x p")
  have "window_loading (elements p' g) = window_loading (elements p g)"
    using each_iframe_window_loading [of x p g] r by simp
  with Cons r show ?case by (cases r) simp_all
qed

lemma forEach_other:
  "g \<notin> set xs \<Longrightarrow> elements (snd (forEach each_iframe xs p)) g = elements p g"
proof (induction xs arbitrary: p)
  case Nil
  show ?case by simp
next
  case (Cons x xs)
  obtain r p' where r: "each_iframe x p = (r, p')" by (cases "each_iframe x p")
  have "elements p' g = elements p g"
    using each_iframe_other [of g x p] r Cons.prems by simp
  with Cons r show ?case by (cases r) simp_all
qed

lemma forEach_stops:
  "body_scrollHeight (elements p y) = Inl err \<Longrightarrow>
   forEach each_iframe (y # zs) p = (Some err, p)"
  by (simp add: each_iframe_error)

lemma forEach_keeps:
  assumes "body_scrollHeight (elements p f) = Inr H" and "height (elements p f) = H + 100"
  shows "height (elements (snd (forEach each_iframe xs p)) f) = H + 100"
  using assms
proof (induction xs arbitrary: p)
  case Nil
  then show ?case by simp
next
  case (Cons x xs)
  obtain r p' where r: "each_iframe x p = (r, p')" by (cases "each_iframe x p")
  have b: "body_scrollHeight (elements p' f) = Inr H"
    using each_iframe_body_scrollHeight [of x p f] r Cons.prems(1) by simp
  have h: "height (elements p' f) = H + 100"
    using each_iframe_keeps [OF Cons.prems, of x] r by simp
  show ?case
  proof (cases r)
    case None
    with r Cons.IH [OF b h] show ?thesis by simp
  next
    case (Some err)
    with r h show ?thesis by simp
  qed
qed

lemma forEach_prefix:
  assumes "\<forall>f\<in>set xs. body_scrollHeight (elements p f) = Inr (H f)" and "f \<in> set xs"
  shows "height (elements (snd (forEach each_iframe (xs @ ys) p)) f) = H f + 100"
  using assms
proof (induction xs arbitrary: p)
  case Nil
  then show ?case by simp
next
  case (Cons x xs)
  have bx: "body_scrollHeight (elements p x) = Inr (H x)"
    using Cons.prems(1) by simp
  obtain p' where r: "each_iframe x p = (None, p')"
    using each_iframe_height [OF bx] by (cases "each_iframe x p") simp
  have hx: "height (elements p' x) = H x + 100"
    using each_iframe_height [OF bx] r by simp
  have b: "body_scrollHeight (elements p' g) = body_scrollHeight (elements p g)" for g
    using each_iframe_body_scrollHeight [of x p g] r by simp
  have run: "forEach each_iframe ((x # xs) @ ys) p = forEach each_iframe (xs @ ys) p'"
    using r by simp
  show ?case
  proof (cases "f \<in> set xs")
    case True
    have "\<forall>g\<in>set xs. body_scrollHeight (elements p' g) = Inr (H g)"
      using Cons.prems(1) b by simp
    from Cons.IH [OF this True] run show ?thesis by simp
  next
    case False
    with Cons.prems(2) have fx: "f = x" by simp
    have "body_scrollHeight (elements p' x) = Inr (H x)"
      using b bx by simp
    from forEach_keeps [OF this hx] run fx show ?thesis by simp
  qed
qed

lemma forEach_no_error:
  assumes "\<forall>f\<in>set xs. body_scrollHeight (elements p f) = Inr (H f)"
  shows "fst (forEach each_iframe xs p) = None"
  using assms
proof (induction xs arbitrary: p)
  case Nil
  then show ?case by simp
next
  case (Cons x xs)
  have bx: "body_scrollHeight (elements p x) = Inr (H x)"
    using Cons.prems(1) by simp
  obtain p' where r: "each_iframe x p = (None, p')"
    using each_iframe_height [OF bx] by (cases "each_iframe x p") simp
  have b: "body_scrollHeight (elements p' g) = body_scrollHeight (elements p g)" for g
    using each_iframe_body_scrollHeight [of x p g] r by simp
  have "\<forall>g\<in>set xs. body_scrollHeight (elements p' g) = Inr (H g)"
      using Cons.prems(1) b by simp
  from Cons.IH [OF this] r show ?case by simp
qed

lemma forEach_append:
  assumes "\<forall>f\<in>set xs. body_scrollHeight (elements p f) = Inr (H f)"
  shows "forEach each_iframe (xs @ ys) p =
           forEach each_iframe ys (snd (forEach each_iframe xs p))"
  using assms
proof (induction xs arbitrary: p)
  case Nil
  show ?case by simp
next
  case (Cons x xs)
  have bx: "body_scrollHeight (elements p x) = Inr (H x)"
    using Cons.prems by simp
  obtain p' where r: "each_iframe x p = (None, p')"
    using each_iframe_height [OF bx] by (cases "each_iframe x p") simp
  have b: "body_scrollHeight (elements p' g) = body_scrollHeight (elements p g)" for g
    using each_iframe_body_scrollHeight [of x p g] r by simp
  have "\<forall>g\<in>set xs. body_scrollHeight (elements p' g) = Inr (H g)"
    using Cons.prems b by simp
  from Cons.IH [OF this] r show ?case by simp
qed

text \<open>
  C4, as the script has it. Whatever the mutation list holds, the callback visits the
  frames of the whole document in document order and resizes them up to the first frame
  at which the read of \<^verbatim>\<open>e.contentWindow.document.body.scrollHeight\<close> raises: every
  frame before that one ends with its scroll height + 100; when no read raises the
  callback raises nothing; otherwise it ends with the exception of that frame, and the
  frames that do not occur before it are as they were.
\<close>

theorem callback_rescans:
  assumes "iframes p = xs @ ys"
    and "\<forall>f\<in>set xs. body_scrollHeight (elements p f) = Inr (H f)"
  shows "(\<forall>f\<in>set xs.
           height (elements (snd (callback arr_MutationList p)) f) = H f + 100) \<and>
         (ys = [] \<longrightarrow> fst (callback arr_MutationList p) = None) \<and>
         (\<forall>y zs err. ys = y # zs \<and> body_scrollHeight (elements p y) = Inl err \<longrightarrow>
            fst (callback arr_MutationList p) = Some err \<and>
            (\<forall>g. g \<notin> set xs \<longrightarrow>
               elements (snd (callback arr_MutationList p)) g = elements p g))"
proof -
  let ?p1 = "snd (forEach each_iframe xs p)"
  have reached: "\<forall>f\<in>set xs.
      height (elements (snd (callback arr_MutationList p)) f) = H f + 100"
    using assms(1) forEach_prefix [OF assms(2), of _ ys] by (simp add: callback_def)
  have all: "fst (callback arr_MutationList p) = None" if "ys = []"
    using that assms(1) forEach_no_error [OF assms(2)] by (simp add: callback_def)
  have stop: "fst (callback arr_MutationList p) = Some err \<and>
      (\<forall>g. g \<notin> set xs \<longrightarrow> elements (snd (callback arr_MutationList p)) g = elements p g)"
    if ys: "ys = y # zs" and y: "body_scrollHeight (elements p y) = Inl err" for y zs err
  proof -
    have "body_scrollHeight (elements ?p1 y) = Inl err"
      using y by simp
    then have "forEach each_iframe (y # zs) ?p1 = (Some err, ?p1)"
      by (rule forEach_stops)
    then have "callback arr_MutationList p = (Some err, ?p1)"
      using assms(1) ys forEach_append [OF assms(2), of ys] by (simp add: callback_def)
    then show ?thesis
      by (simp add: forEach_other)
  qed
  from reached all stop show ?thesis by blast
qed


subsection \<open>Listeners\<close>

lemma run_listener_observers [simp]: "observers (snd (run_listener l p)) = observers p"
  by (cases l) simp

lemma run_listener_iframes [simp]: "iframes (snd (run_listener l p)) = iframes p"
  by (cases l) simp

lemma run_listener_body_scrollHeight [simp]:
  "body_scrollHeight (elements (snd (run_listener l p)) g) = body_scrollHeight (elements p g)"
  by (cases l) simp

lemma run_listener_window_listeners [simp]:
  "window_listeners (elements (snd (run_listener l p)) g) = window_listeners (elements p g)"
  by (cases l) simp

lemma fold_listeners_observers [simp]:
  "observers (fold (\<lambda>l q. snd (run_listener l q)) ls p) = observers p"
  by (induction ls arbitrary: p) simp_all

lemma fold_listeners_iframes [simp]:
  "iframes (fold (\<lambda>l q. snd (run_listener l q)) ls p) = iframes p"
  by (induction ls arbitrary: p) simp_all

lemma fold_listeners_body_scrollHeight [simp]:
  "body_scrollHeight (elements (fold (\<lambda>l q. snd (run_listener l q)) ls p) g) =
     body_scrollHeight (elements p g)"
  by (induction ls arbitrary: p) simp_all

lemma fold_listeners_window_listeners [simp]:
  "window_listeners (elements (fold (\<lambda>l q. snd (run_listener l q)) ls p) g) =
     window_listeners (elements p g)"
  by (induction ls arbitrary: p) simp_all

lemma fold_own_listeners_other:
  assumes "\<forall>l\<in>set ls. l = Resize_listener g" and "g \<noteq> f"
  shows "elements (fold (\<lambda>l q. snd (run_listener l q)) ls p) f = elements p f"
  using assms
  by (induction ls arbitrary: p) (simp_all add: resizeIframe_other)

lemma dispatch_cases:
  obtains (idle) "\<not> window_loading (elements p f)"
      and "dispatch_DOMContentLoaded f p = p"
  | (fire) w where "contentWindow (elements p f) = Some w" and "loading w"
      and "dispatch_DOMContentLoaded f p =
        fold (\<lambda>l q. snd (run_listener l q)) (listeners w)
          (p\<lparr>elements := (elements p)
             (f := (elements p f)\<lparr>contentWindow := Some (w\<lparr>loading := False\<rparr>)\<rparr>)\<rparr>)"
proof (cases "contentWindow (elements p f)")
  case None
  then show ?thesis
    using idle by (simp add: dispatch_DOMContentLoaded_def window_loading_def)
next
  case (Some w)
  show ?thesis
  proof (cases "loading w")
    case True
    with Some show ?thesis
      using fire by (simp add: dispatch_DOMContentLoaded_def)
  next
    case False
    with Some show ?thesis
      using idle by (simp add: dispatch_DOMContentLoaded_def window_loading_def)
  qed
qed

lemma dispatch_observers [simp]:
  "observers (dispatch_DOMContentLoaded f p) = observers p"
  by (rule dispatch_cases [of p f]) simp_all

lemma dispatch_window_listeners [simp]:
  "window_listeners (elements (dispatch_DOMContentLoaded f p) g) =
     window_listeners (elements p g)"
proof (rule dispatch_cases [of p f])
  assume "dispatch_DOMContentLoaded f p = p"
  then show ?thesis by simp
next
  fix w
  let ?q = "p\<lparr>elements := (elements p)
    (f := (elements p f)\<lparr>contentWindow := Some (w\<lparr>loading := False\<rparr>)\<rparr>)\<rparr>"
  assume w: "contentWindow (elements p f) = Some w"
    and d: "dispatch_DOMContentLoaded f p =
      fold (\<lambda>l q. snd (run_listener l q)) (listeners w) ?q"
  have "window_listeners (elements ?q g) = window_listeners (elements p g)"
    using w by (simp add: window_listeners_def)
  with d show ?thesis by simp
qed

lemma dispatch_other:
  assumes "\<forall>l\<in>set (window_listeners (elements p g)). l = Resize_listener g" and "g \<noteq> f"
  shows "elements (dispatch_DOMContentLoaded g p) f = elements p f"
proof (rule dispatch_cases [of p g])
  assume "dispatch_DOMContentLoaded g p = p"
  then show ?thesis by simp
next
  fix w
  let ?q = "p\<lparr>elements := (elements p)
    (g := (elements p g)\<lparr>contentWindow := Some (w\<lparr>loading := False\<rparr>)\<rparr>)\<rparr>"
  assume w: "contentWindow (elements p g) = Some w"
    and d: "dispatch_DOMContentLoaded g p =
      fold (\<lambda>l q. snd (run_listener l q)) (listeners w) ?q"
  have "\<forall>l\<in>set (listeners w). l = Resize_listener g"
    using assms(1) w by (simp add: window_listeners_def)
  from fold_own_listeners_other [OF this assms(2), of ?q] d assms(2)
  show ?thesis by simp
qed


lemma dispatch_idle:
  "\<not> window_loading (elements p f) \<Longrightarrow> dispatch_DOMContentLoaded f p = p"
  by (rule dispatch_cases [of p f]) (simp_all add: window_loading_def)

subsection \<open>Reflow and navigation\<close>

lemma reflow_height [simp]: "height (reflow h e) = height e"
  by (simp add: reflow_def split: option.splits)

lemma reflow_window_listeners [simp]: "window_listeners (reflow h e) = window_listeners e"
  by (simp add: reflow_def window_listeners_def split: option.splits)

lemma reflow_window_loading [simp]: "window_loading (reflow h e) = window_loading e"
  by (simp add: reflow_def window_loading_def split: option.splits)


lemma navigate_height [simp]: "height (navigate d e) = height e"
  by (simp add: navigate_def split: option.splits)

lemma navigate_window_listeners [simp]: "window_listeners (navigate d e) = []"
  by (simp add: navigate_def window_listeners_def split: option.splits)

lemma show_document_height [simp]: "height (show_document d e) = height e"
  by (simp add: show_document_def split: option.splits)

lemma show_document_window_loading [simp]:
  "window_loading (show_document d e) = window_loading e"
  by (simp add: show_document_def window_loading_def split: option.splits)


lemma show_document_window_listeners [simp]:
  "window_listeners (show_document d e) = window_listeners e"
  by (simp add: show_document_def window_listeners_def split: option.splits)



subsection \<open>The observer\<close>

lemma interested_observe_options:
  "interested observe_options m = (mtype m = childList_type \<and> target m \<noteq> Outside_body)"
  by (cases "mtype m"; cases "target m") (simp_all add: interested_def observe_options_def)

lemma queue_unobserved:
  "mtype m \<noteq> childList_type \<Longrightarrow> queue_mutation_record m p = p"
  by (simp add: queue_mutation_record_def interested_observe_options)

lemma callback_observers [simp]: "observers (snd (callback ms p)) = observers p"
  by (simp add: callback_def)

lemma notify_each_idle:
  assumes "concat (observers p) = []"
  shows "notify_each js p = p"
proof (induction js)
  case Nil
  show ?case by simp
next
  case (Cons i js)
  have "observers p ! i = []" if "i < length (observers p)"
    using assms that nth_mem [of i "observers p"] by simp
  with Cons show ?case by auto
qed


text \<open>
  C3, as the script has it. The handler of the host's DOMContentLoaded only registers the
  observer: it leaves every frame as it was, and so does a microtask checkpoint that
  follows it. The frames of the document are resized at the first batch of child-list
  mutations at or below the body that follows: after that batch every frame before the
  first one at which the read of \<^verbatim>\<open>e.contentWindow.document.body.scrollHeight\<close> raises
  has its scroll height + 100.
\<close>

theorem initialize_registers_only:
  assumes "observers p = []"
    and "\<forall>f\<in>set xs. body_scrollHeight (elements p f) = Inr (H f)"
    and "t \<noteq> Outside_body"
  shows "elements (run [Host_DOMContentLoaded] p) = elements p \<and>
         elements (run [Host_DOMContentLoaded, Microtask_checkpoint] p) = elements p \<and>
         (\<forall>f\<in>set xs.
            height (elements
              (run [Host_DOMContentLoaded, Child_list_mutation t (xs @ ys),
                    Microtask_checkpoint] p) f) =
            H f + 100)"
proof -
  let ?m = "\<lparr>mtype = childList_type, target = t\<rparr>"
  let ?p1 = "p\<lparr>observers := [[]]\<rparr>"
  let ?p2 = "p\<lparr>iframes := xs @ ys, observers := [[]]\<rparr>"
  have init: "initialize p = ?p1"
    using assms(1) by (simp add: initialize_def)
  have idle: "notify_mutation_observers ?p1 = ?p1"
    by (simp add: notify_mutation_observers_def notify_each_idle)
  have queued: "step (Child_list_mutation t (xs @ ys)) ?p1 =
      p\<lparr>iframes := xs @ ys, observers := [[?m]]\<rparr>"
    using assms(3) by (simp add: queue_mutation_record_def interested_observe_options)
  have notified: "notify_mutation_observers (p\<lparr>iframes := xs @ ys, observers := [[?m]]\<rparr>) =
      snd (callback [?m] ?p2)"
    by (simp add: notify_mutation_observers_def)
  have "\<forall>f\<in>set xs. body_scrollHeight (elements ?p2 f) = Inr (H f)"
    using assms(2) by simp
  then have "height (elements (snd (callback [?m] ?p2)) f) = H f + 100" if "f \<in> set xs" for f
    using forEach_prefix [of xs ?p2 H f ys] that by (simp add: callback_def)
  then show ?thesis
    using init idle queued notified by (simp add: run_def)
qed

subsection \<open>Quiet events\<close>

lemma quiet_step:
  assumes "listeners_own p" and "concat (observers p) = []" and "quiet f ev"
  shows "listeners_own (step ev p) \<and> concat (observers (step ev p)) = [] \<and>
         height (elements (step ev p) f) = height (elements p f)"
proof (cases ev)
  case Host_DOMContentLoaded
  with assms show ?thesis by (simp add: initialize_def listeners_own_def)
next
  case (Child_list_mutation t fs)
  with assms(3) show ?thesis by simp
next
  case (Attribute_mutation t)
  with assms show ?thesis by (simp add: queue_unobserved)
next
  case (Character_data_mutation t)
  with assms show ?thesis by (simp add: queue_unobserved)
next
  case Microtask_checkpoint
  with assms show ?thesis by (simp add: notify_mutation_observers_def notify_each_idle)
next
  case (Frame_DOMContentLoaded g)
  with assms(3) have gf: "g \<noteq> f" by simp
  have own: "\<forall>l\<in>set (window_listeners (elements p g)). l = Resize_listener g"
    using assms(1) by (simp add: listeners_own_def)
  have "listeners_own (dispatch_DOMContentLoaded g p)"
    using assms(1) by (simp add: listeners_own_def)
  moreover have "elements (dispatch_DOMContentLoaded g p) f = elements p f"
    using own gf by (rule dispatch_other)
  ultimately show ?thesis
    using Frame_DOMContentLoaded assms(2) by simp
next
  case (Inner_reflow g h)
  with assms show ?thesis by (simp add: listeners_own_def)
next
  case (Frame_navigate g d)
  with assms show ?thesis by (simp add: listeners_own_def)
next
  case (Frame_document g d)
  with assms show ?thesis by (simp add: listeners_own_def)
qed

text \<open>
  C5. Starting with no mutation record pending, no sequence of events without a
  child-list mutation of the host document and without the completion of the frame's
  own document changes the frame's height, whatever happens to the scroll height of its
  content in between.
\<close>

theorem stale_without_mutation_or_load:
  assumes "listeners_own p" and "concat (observers p) = []" and "\<forall>ev\<in>set evs. quiet f ev"
  shows "height (elements (run evs p) f) = height (elements p f)"
  using assms
proof (induction evs arbitrary: p)
  case Nil
  show ?case by (simp add: run_def)
next
  case (Cons ev evs)
  have q: "quiet f ev" and qs: "\<forall>ev\<in>set evs. quiet f ev"
    using Cons.prems(3) by simp_all
  note s = quiet_step [OF Cons.prems(1,2) q]
  have "height (elements (run evs (step ev p)) f) = height (elements (step ev p) f)"
    using Cons.IH [of "step ev p"] s qs by simp
  with s show ?case by (simp add: run_def)
qed

subsection \<open>Notification empties the queues\<close>

lemma notify_each_observers:
  "observers (notify_each js p) = fold (\<lambda>i obs. obs[i := []]) js (observers p)"
proof (induction js arbitrary: p)
  case Nil
  show ?case by simp
next
  case (Cons i js)
  have "(observers p)[i := []] = observers p"
    if "\<not> (i < length (observers p) \<and> observers p ! i \<noteq> [])"
    using that
    by (cases "i < length (observers p)") (simp_all add: list_update_same_conv list_update_beyond)
  then show ?case
    using Cons [of "snd (callback (observers p ! i) (p\<lparr>observers := (observers p)[i := []]\<rparr>))"]
      Cons [of p]
    by auto
qed

lemma fold_clear_length [simp]:
  "length (fold (\<lambda>i obs. obs[i := []]) js (obs :: 'a list list)) = length obs"
  by (induction js arbitrary: obs) simp_all

lemma fold_clear_keeps:
  "i < length obs \<Longrightarrow> obs ! i = [] \<Longrightarrow> fold (\<lambda>i obs. obs[i := []]) js obs ! i = []"
proof (induction js arbitrary: obs)
  case Nil
  then show ?case by simp
next
  case (Cons j js)
  have "obs[j := []] ! i = []"
    using Cons.prems by (cases "i = j") simp_all
  with Cons show ?case by simp
qed

lemma fold_clear_nth:
  "i < length obs \<Longrightarrow> i \<in> set js \<Longrightarrow> fold (\<lambda>i obs. obs[i := []]) js obs ! i = []"
proof (induction js arbitrary: obs)
  case Nil
  then show ?case by simp
next
  case (Cons j js)
  show ?case
  proof (cases "i = j")
    case True
    with Cons.prems(1) show ?thesis by (simp add: fold_clear_keeps)
  next
    case False
    with Cons show ?thesis by simp
  qed
qed

lemma notify_clears:
  "observers (notify_mutation_observers p) = map (\<lambda>q. []) (observers p)"
  by (rule nth_equalityI)
    (simp_all add: notify_mutation_observers_def notify_each_observers fold_clear_nth)

text \<open>
  C6. The observer registered by line 16 is interested in a mutation record exactly when
  the record is of type childList and its target is the body or lies below it, never in
  a record of type attributes or characterData. So the height written by resizeIframe
  queues nothing, a run of the callback leaves every record queue as it was, and after a
  microtask checkpoint no record is pending: the callback never triggers itself.
\<close>

theorem observer_ignores_height_writes:
  "interested observe_options m = (mtype m = childList_type \<and> target m \<noteq> Outside_body) \<and>
   observers (snd (resizeIframe e p)) = observers p \<and>
   observers (snd (callback arr_MutationList p)) = observers p \<and>
   concat (observers (notify_mutation_observers p)) = []"
  by (simp add: interested_observe_options notify_clears)

subsection \<open>The listeners of a window stay closures over its frame\<close>

lemma each_iframe_listeners_own:
  assumes "listeners_own p"
  shows "listeners_own (snd (each_iframe e p))"
proof (rule each_iframe_cases [of p e])
  fix err assume "each_iframe e p = (Some err, p)"
  with assms show ?thesis by simp
next
  fix h w
  assume b: "body_scrollHeight (elements p e) = Inr h"
  have "window_listeners (elements (snd (each_iframe e p)) g) =
      (if g = e then window_listeners (elements p e) @ [Resize_listener e]
       else window_listeners (elements p g))" for g
    using each_iframe_listeners [OF b] each_iframe_other [of g e p] by simp
  with assms show ?thesis by (simp add: listeners_own_def)
qed

lemma forEach_listeners_own:
  "listeners_own p \<Longrightarrow> listeners_own (snd (forEach each_iframe xs p))"
proof (induction xs arbitrary: p)
  case Nil
  then show ?case by simp
next
  case (Cons x xs)
  obtain r p' where r: "each_iframe x p = (r, p')" by (cases "each_iframe x p")
  have "listeners_own p'"
    using each_iframe_listeners_own [OF Cons.prems, of x] r by simp
  with Cons.IH [of p'] r show ?case by (cases r) simp_all
qed

lemma notify_each_listeners_own:
  "listeners_own p \<Longrightarrow> listeners_own (notify_each js p)"
proof (induction js arbitrary: p)
  case Nil
  then show ?case by simp
next
  case (Cons i js)
  have "listeners_own (p\<lparr>observers := obs\<rparr>)" for obs
    using Cons.prems by (simp add: listeners_own_def)
  then have "listeners_own (snd (callback ms (p\<lparr>observers := obs\<rparr>)))" for ms obs
    by (simp add: callback_def forEach_listeners_own)
  with Cons show ?case by simp
qed

lemma queue_elements [simp]: "elements (queue_mutation_record m p) = elements p"
  by (simp add: queue_mutation_record_def)

lemma step_listeners_own:
  assumes "listeners_own p"
  shows "listeners_own (step ev p)"
proof (cases ev)
  case Microtask_checkpoint
  with assms show ?thesis
    by (simp add: notify_mutation_observers_def notify_each_listeners_own)
next
  case (Frame_DOMContentLoaded g)
  with assms show ?thesis by (simp add: listeners_own_def)
qed (use assms in \<open>simp_all add: listeners_own_def initialize_def\<close>)

lemma run_listeners_own:
  "listeners_own p \<Longrightarrow> listeners_own (run evs p)"
  unfolding run_def
  by (induction evs arbitrary: p) (simp_all add: step_listeners_own)

subsection \<open>The properties at example pages\<close>



theorem initialize_registers_only_witness:
  "observers three_frame_page = [] \<and>
   body_scrollHeight (elements three_frame_page 0) = Inr 300 \<and>
   Below_body \<noteq> Outside_body \<and>
   elements (run [Host_DOMContentLoaded] three_frame_page) = elements three_frame_page \<and>
   elements (run [Host_DOMContentLoaded, Microtask_checkpoint] three_frame_page) =
     elements three_frame_page \<and>
   height (elements
     (run [Host_DOMContentLoaded, Child_list_mutation Below_body ([0] @ [1, 2]),
           Microtask_checkpoint] three_frame_page) 0) = 400"
proof -
  let ?P = "three_frame_page"
  have o: "observers ?P = []"
    by (simp add: three_frame_page_def)
  have r: "\<forall>f\<in>set [0]. body_scrollHeight (elements ?P f) = Inr ((\<lambda>_. 300) f)"
    by (simp add: three_frame_page_def readable_frame_def body_scrollHeight_def)
  have t: "Below_body \<noteq> Outside_body" by simp
  show ?thesis
    using o r initialize_registers_only [OF o r t, of "[1, 2]"] by simp
qed

text \<open>
  Against a scan at initialization: a frame that is in the document when the host
  document is parsed keeps its height of 150 over a content of scroll height 300.
\<close>

theorem initial_scan_counterexample:
  "iframes (one_frame_page 150 300) = [0] \<and>
   body_scrollHeight (elements (one_frame_page 150 300) 0) = Inr 300 \<and>
   height (elements (run [Host_DOMContentLoaded, Microtask_checkpoint]
     (one_frame_page 150 300)) 0) = 150 \<and>
   height (elements (run [Host_DOMContentLoaded, Microtask_checkpoint]
     (one_frame_page 150 300)) 0) \<noteq> 300 + 100"
  by code_simp

theorem callback_rescans_witness:
  "iframes (two_frame_page 700 300) = [0, 1] @ [] \<and>
   body_scrollHeight (elements (two_frame_page 700 300) 0) = Inr 700 \<and>
   body_scrollHeight (elements (two_frame_page 700 300) 1) = Inr 300 \<and>
   height (elements (snd (callback [] (two_frame_page 700 300))) 0) = 800 \<and>
   height (elements (snd (callback [] (two_frame_page 700 300))) 1) = 400 \<and>
   fst (callback [] (two_frame_page 700 300)) = None \<and>
   iframes three_frame_page = [0] @ [1, 2] \<and>
   body_scrollHeight (elements three_frame_page 0) = Inr 300 \<and>
   body_scrollHeight (elements three_frame_page 1) = Inl TypeError \<and>
   height (elements (snd (callback [] three_frame_page)) 0) = 400 \<and>
   fst (callback [] three_frame_page) = Some TypeError \<and>
   elements (snd (callback [] three_frame_page)) 2 = elements three_frame_page 2"
proof -
  let ?P = "two_frame_page 700 300"
  let ?Q = "three_frame_page"
  have i: "iframes ?P = [0, 1] @ []"
    by (simp add: two_frame_page_def)
  have r: "\<forall>f\<in>set [0, 1]. body_scrollHeight (elements ?P f) =
      Inr ((\<lambda>f. if f = 0 then 700 else 300) f)"
    by (simp add: two_frame_page_def readable_frame_def body_scrollHeight_def)
  have j: "iframes ?Q = [0] @ [1, 2]"
    by (simp add: three_frame_page_def)
  have s: "\<forall>f\<in>set [0]. body_scrollHeight (elements ?Q f) = Inr ((\<lambda>_. 300) f)"
    by (simp add: three_frame_page_def readable_frame_def body_scrollHeight_def)
  have y: "body_scrollHeight (elements ?Q 1) = Inl TypeError"
    by (simp add: three_frame_page_def bodyless_frame_def body_scrollHeight_def)
  show ?thesis
    using i r j s y callback_rescans [OF i r, of "[]"] callback_rescans [OF j s, of "[]"]
    by simp
qed

text \<open>
  Against a resize of every frame at every batch: the first frame belongs to another
  origin, the callback ends with its SecurityError and the second frame, of scroll height
  300, keeps its height of 150.
\<close>

theorem rescan_all_counterexample:
  "iframes (run [Host_DOMContentLoaded, Child_list_mutation Below_body [0, 1],
       Microtask_checkpoint] mixed_page) = [0, 1] \<and>
   body_scrollHeight (elements (run [Host_DOMContentLoaded,
       Child_list_mutation Below_body [0, 1], Microtask_checkpoint] mixed_page) 1) = Inr 300 \<and>
   height (elements (run [Host_DOMContentLoaded,
       Child_list_mutation Below_body [0, 1], Microtask_checkpoint] mixed_page) 1) = 150 \<and>
   fst (callback [] mixed_page) = Some SecurityError \<and>
   height (elements (snd (callback [] mixed_page)) 1) \<noteq> 300 + 100"
  by code_simp

theorem stale_without_mutation_or_load_witness:
  "listeners_own (one_frame_page 300 200) \<and>
   concat (observers (one_frame_page 300 200)) = [] \<and>
   quiet 0 (Inner_reflow 0 500) \<and> quiet 0 (Attribute_mutation Below_body) \<and>
   quiet 0 Microtask_checkpoint \<and>
   body_scrollHeight (elements (run [Inner_reflow 0 500, Attribute_mutation Below_body,
     Microtask_checkpoint] (one_frame_page 300 200)) 0) = Inr 500 \<and>
   height (elements (run [Inner_reflow 0 500, Attribute_mutation Below_body,
     Microtask_checkpoint] (one_frame_page 300 200)) 0) = 300"
proof -
  let ?P = "one_frame_page 300 200"
  let ?evs = "[Inner_reflow 0 500, Attribute_mutation Below_body, Microtask_checkpoint]"
  have l: "listeners_own ?P"
    by (simp add: listeners_own_def one_frame_page_def readable_frame_def detached_frame_def
        window_listeners_def)
  have c: "concat (observers ?P) = []"
    by (simp add: one_frame_page_def)
  have q: "\<forall>ev\<in>set ?evs. quiet 0 ev"
    by simp
  have b: "body_scrollHeight (elements (run ?evs ?P) 0) = Inr 500"
    by code_simp
  have h: "height (elements ?P 0) = 300"
    by (simp add: one_frame_page_def readable_frame_def)
  show ?thesis
    using l c b h stale_without_mutation_or_load [OF l c q] by simp
qed

end
